theory Spec2Isabelle
  imports Complex_Main
begin

section \<open>JavaScript numbers\<close>

text \<open>
  A JavaScript \<open>number\<close> is an IEEE 754 double. The model keeps every special value the
  program can produce: both zeros, both infinities and NaN. A finite non-zero value is an
  exact real, and so is \<open>+0\<close> (\<open>Finite 0\<close>): rounding to 53 bits, overflow and underflow
  are not modelled, so a decimal literal such as \<open>0.1\<close> stands for the real 1/10.
  The rules for signs of zeros, for infinities and for NaN are those of IEEE 754 in
  round-to-nearest mode.
\<close>

datatype number = Finite real | NegZero | PosInf | NegInf | NaN

fun isNaN :: "number \<Rightarrow> bool" where
  "isNaN NaN = True"
| "isNaN _ = False"

fun is_inf :: "number \<Rightarrow> bool" where
  "is_inf PosInf = True"
| "is_inf NegInf = True"
| "is_inf _ = False"

text \<open>\<open>Number.isFinite\<close>: neither NaN nor an infinity.\<close>

fun isFinite :: "number \<Rightarrow> bool" where
  "isFinite (Finite r) = True"
| "isFinite NegZero = True"
| "isFinite _ = False"

text \<open>The real value of a finite number (both zeros have value 0).\<close>

fun num_val :: "number \<Rightarrow> real" where
  "num_val (Finite r) = r"
| "num_val _ = 0"

fun is_zero :: "number \<Rightarrow> bool" where
  "is_zero (Finite r) = (r = 0)"
| "is_zero NegZero = True"
| "is_zero _ = False"

text \<open>The sign bit (irrelevant for NaN).\<close>

fun sign_bit :: "number \<Rightarrow> bool" where
  "sign_bit (Finite r) = (r < 0)"
| "sign_bit NegZero = True"
| "sign_bit NegInf = True"
| "sign_bit _ = False"

definition mk_zero :: "bool \<Rightarrow> number" where
  "mk_zero neg = (if neg then NegZero else Finite 0)"

definition mk_inf :: "bool \<Rightarrow> number" where
  "mk_inf neg = (if neg then NegInf else PosInf)"

text \<open>A finite result \<open>r\<close>; when it is zero, the flag says which zero.\<close>

definition mk_fin :: "real \<Rightarrow> bool \<Rightarrow> number" where
  "mk_fin r neg = (if r = 0 then mk_zero neg else Finite r)"

instantiation number :: "{plus, minus, uminus, times, inverse}"
begin

definition uminus_number :: "number \<Rightarrow> number" where
  "uminus_number a =
     (case a of
        Finite r \<Rightarrow> (if r = 0 then NegZero else Finite (- r))
      | NegZero \<Rightarrow> Finite 0
      | PosInf \<Rightarrow> NegInf
      | NegInf \<Rightarrow> PosInf
      | NaN \<Rightarrow> NaN)"

definition plus_number :: "number \<Rightarrow> number \<Rightarrow> number" where
  "plus_number a b =
     (if isNaN a \<or> isNaN b then NaN
      else if is_inf a then (if is_inf b \<and> a \<noteq> b then NaN else a)
      else if is_inf b then b
      else mk_fin (num_val a + num_val b) (sign_bit a \<and> sign_bit b))"

definition minus_number :: "number \<Rightarrow> number \<Rightarrow> number" where
  "minus_number a b = a + (- b)"

definition times_number :: "number \<Rightarrow> number \<Rightarrow> number" where
  "times_number a b =
     (if isNaN a \<or> isNaN b then NaN
      else if is_inf a \<or> is_inf b
      then (if is_zero a \<or> is_zero b then NaN else mk_inf (sign_bit a \<noteq> sign_bit b))
      else mk_fin (num_val a * num_val b) (sign_bit a \<noteq> sign_bit b))"

definition divide_number :: "number \<Rightarrow> number \<Rightarrow> number" where
  "divide_number a b =
     (if isNaN a \<or> isNaN b then NaN
      else if is_inf a then (if is_inf b then NaN else mk_inf (sign_bit a \<noteq> sign_bit b))
      else if is_inf b then mk_zero (sign_bit a \<noteq> sign_bit b)
      else if is_zero b
      then (if is_zero a then NaN else mk_inf (sign_bit a \<noteq> sign_bit b))
      else mk_fin (num_val a / num_val b) (sign_bit a \<noteq> sign_bit b))"

definition inverse_number :: "number \<Rightarrow> number" where
  "inverse_number a = divide (Finite 1) a"

instance ..

end

text \<open>The comparison \<open>a < b\<close>: false as soon as one side is NaN; the two zeros are equal.\<close>

definition num_lt :: "number \<Rightarrow> number \<Rightarrow> bool" where
  "num_lt a b =
     (if isNaN a \<or> isNaN b then False
      else if a = PosInf \<or> b = NegInf then False
      else if a = NegInf \<or> b = PosInf then True
      else num_val a < num_val b)"

definition Math_abs :: "number \<Rightarrow> number" where
  "Math_abs a =
     (case a of
        Finite r \<Rightarrow> Finite \<bar>r\<bar>
      | NegZero \<Rightarrow> Finite 0
      | PosInf \<Rightarrow> PosInf
      | NegInf \<Rightarrow> PosInf
      | NaN \<Rightarrow> NaN)"

text \<open>\<open>Math.max\<close> of two arguments: NaN if either is NaN, and \<open>+0\<close> counts above \<open>-0\<close>.\<close>

definition Math_max :: "number \<Rightarrow> number \<Rightarrow> number" where
  "Math_max a b =
     (if isNaN a \<or> isNaN b then NaN
      else if num_lt a b then b
      else if num_lt b a then a
      else if a = NegZero then b else a)"

text \<open>
  \<open>x || 0\<close> where \<open>x\<close> is a number or \<open>undefined\<close> (\<open>None\<close>): the falsy values
  \<open>undefined\<close>, \<open>+0\<close>, \<open>-0\<close> and NaN give the literal \<open>0\<close>.
\<close>

definition or_zero :: "number option \<Rightarrow> number" where
  "or_zero x =
     (case x of
        None \<Rightarrow> Finite 0
      | Some a \<Rightarrow> (if is_zero a \<or> isNaN a then Finite 0 else a))"

text \<open>\<open>undefined\<close> used as an operand of arithmetic converts to NaN.\<close>

definition ToNumber :: "number option \<Rightarrow> number" where
  "ToNumber x = (case x of None \<Rightarrow> NaN | Some a \<Rightarrow> a)"


section \<open>Library functions of the language\<close>

text \<open>\<open>xs.slice(-n)\<close> for a positive \<open>n\<close>: the last \<open>n\<close> elements, or all of \<open>xs\<close> if it is shorter.\<close>

definition slice_neg :: "nat \<Rightarrow> 'a list \<Rightarrow> 'a list" where
  "slice_neg n xs = drop (length xs - n) xs"

text \<open>
  \<open>arr.findIndex(pred)\<close>: the first index whose element satisfies the callback, which
  receives the element, its index and the array; \<open>-1\<close> if there is none.
\<close>

fun findIndex_from :: "('a \<Rightarrow> nat \<Rightarrow> 'a list \<Rightarrow> bool) \<Rightarrow> 'a list \<Rightarrow> nat \<Rightarrow> 'a list \<Rightarrow> int" where
  "findIndex_from pred arr i [] = - 1"
| "findIndex_from pred arr i (x # xs) =
     (if pred x i arr then int i else findIndex_from pred arr (Suc i) xs)"

definition findIndex :: "('a \<Rightarrow> nat \<Rightarrow> 'a list \<Rightarrow> bool) \<Rightarrow> 'a list \<Rightarrow> int" where
  "findIndex pred arr = findIndex_from pred arr 0 arr"

text \<open>Decimal digits of a natural number, as \<open>toFixed\<close> prints them.\<close>

fun show_nat :: "nat \<Rightarrow> string" where
  "show_nat n =
     (if n < 10 then [''0123456789'' ! n]
      else show_nat (n div 10) @ [''0123456789'' ! (n mod 10)])"

declare show_nat.simps [simp del]

text \<open>
  \<open>x.toFixed(1)\<close>: the sign, then the integer \<open>n\<close> nearest to ten times the magnitude
  (the larger one on a tie) printed with one digit after the point. For magnitudes of
  \<open>10^21\<close> and more JavaScript switches to exponent notation, which is not modelled; the
  simulation below therefore takes the formatter as a parameter, and this function is the
  instance used on concrete runs.
\<close>

definition toFixed1 :: "number \<Rightarrow> string" where
  "toFixed1 a =
     (case a of
        NaN \<Rightarrow> ''NaN''
      | PosInf \<Rightarrow> ''Infinity''
      | NegInf \<Rightarrow> ''-Infinity''
      | NegZero \<Rightarrow> ''0.0''
      | Finite r \<Rightarrow>
          (let n = nat \<lfloor>\<bar>r\<bar> * 10 + 1 / 2\<rfloor>
           in (if r < 0 then ''-'' else []) @ show_nat (n div 10) @ ''.'' @ show_nat (n mod 10)))"


section \<open>src/app/page.tsx: PIDVisualizer, the single-controller page\<close>

text \<open>
  \<open>pidController\<close> closes over the gains of the component state; they are its first three
  arguments here. \<open>kd * (error - lastError) / dt\<close> multiplies before it divides.
\<close>

definition pidController ::
  "number \<Rightarrow> number \<Rightarrow> number \<Rightarrow> number \<Rightarrow> number \<Rightarrow> number \<Rightarrow> number \<Rightarrow> number" where
  "pidController kp ki kd =
     (\<lambda>error integral lastError dt.
        let p = kp * error;
            i = ki * (integral + error * dt);
            d = kd * (error - lastError) / dt
        in p + i + d)"

record Point =
  time :: string
  setpoint :: number
  processVariable :: number
  error :: number
  integral :: number
  "output" :: number
  disturbance :: number

record PIDVisualizer =
  kp :: number
  ki :: number
  kd :: number
  setpoint :: number
  data :: "Point list"
  time :: number
  disturbance :: number

text \<open>
  One run of \<open>updateSimulation\<close>: the two state updaters \<open>setTime\<close> and \<open>setData\<close>, with
  the values of \<open>setpoint\<close>, \<open>time\<close> and \<open>disturbance\<close> that the callback closed over. When
  the buffer is empty, \<open>lastPoint\<close> is the literal \<open>{processVariable: 0, integral: 0}\<close>,
  whose \<open>error\<close> is \<open>undefined\<close>. Scheduling of the next frame is outside the model.
\<close>

definition PIDVisualizer_updateSimulation ::
  "(number \<Rightarrow> string) \<Rightarrow> PIDVisualizer \<Rightarrow> PIDVisualizer" where
  "PIDVisualizer_updateSimulation toFixed s =
     (let prevData = data s;
          lastPoint = (if prevData = [] then None else Some (last prevData));
          lastPoint_processVariable =
            (case lastPoint of None \<Rightarrow> Finite 0 | Some p \<Rightarrow> Point.processVariable p);
          lastPoint_integral =
            (case lastPoint of None \<Rightarrow> Finite 0 | Some p \<Rightarrow> Point.integral p);
          lastPoint_error = map_option Point.error lastPoint;
          error = setpoint s - lastPoint_processVariable;
          integral = lastPoint_integral + error * Finite 0.1;
          output = pidController (kp s) (ki s) (kd s) error integral
                     (or_zero lastPoint_error) (Finite 0.1);
          newProcessVariable = lastPoint_processVariable + output * Finite 0.1 + disturbance s;
          newPoint = \<lparr>Point.time = toFixed (time s), setpoint = setpoint s,
                      processVariable = newProcessVariable, error = error, integral = integral,
                      output = output, disturbance = disturbance s\<rparr>;
          newData = prevData @ [newPoint]
      in s\<lparr>time := time s + Finite 0.1, data := slice_neg 100 newData\<rparr>)"


section \<open>src/lib/pidController.ts\<close>

datatype ControllerType = P | PI | PD | PID

record TuningParams =
  kp :: number
  ki :: number
  kd :: number

record PIDController =
  name :: string
  kp :: number
  ki :: number
  kd :: number
  type :: ControllerType
  integral :: number
  previousError :: number

text \<open>The constructor: the accumulated state starts at zero.\<close>

definition new_PIDController ::
  "string \<Rightarrow> number \<Rightarrow> number \<Rightarrow> number \<Rightarrow> ControllerType \<Rightarrow> PIDController" where
  "new_PIDController n p i d t =
     \<lparr>name = n, kp = p, ki = i, kd = d, type = t, integral = Finite 0, previousError = Finite 0\<rparr>"

text \<open>
  \<open>update\<close> mutates \<open>this\<close> and returns the output; the model returns the output together
  with the controller after the call. The three statements before the \<open>switch\<close> run in the
  source's order, and the \<open>switch\<close> reads the fields of the already updated object.
\<close>

definition update :: "PIDController \<Rightarrow> number \<Rightarrow> number \<Rightarrow> number \<times> PIDController" where
  "update this =
     (\<lambda>error dt.
        let this1 = this\<lparr>integral := integral this + error * dt\<rparr>;
            derivative = (error - previousError this1) / dt;
            this2 = this1\<lparr>previousError := error\<rparr>;
            output =
              (case type this2 of
                 P \<Rightarrow> kp this2 * error
               | PI \<Rightarrow> kp this2 * error + ki this2 * integral this2
               | PD \<Rightarrow> kp this2 * error + kd this2 * derivative
               | PID \<Rightarrow> kp this2 * error + ki this2 * integral this2 + kd this2 * derivative)
        in (output, this2))"

record SystemCharacteristics =
  processGain :: number
  timeConstant :: number
  deadTime :: number

text \<open>Ziegler-Nichols tuning. The source has no check on \<open>deadTime\<close> and no failure path.\<close>

definition autoTune :: "SystemCharacteristics \<Rightarrow> TuningParams" where
  "autoTune system =
     (let ku = Finite 0.6 * processGain system * (timeConstant system / deadTime system);
          tu = Finite 2 * deadTime system;
          kp' = Finite 0.6 * ku;
          ki' = Finite 1.2 * ku / tu;
          kd' = Finite 0.075 * ku * tu
      in \<lparr>TuningParams.kp = kp', ki = ki', kd = kd'\<rparr>)"


section \<open>src/app/page.tsx: AdvancedPIDVisualizer, the multi-controller page\<close>

subsection \<open>State\<close>

text \<open>
  An element of the \<open>controllers\<close> array: its own fields, and whether it was built by
  \<open>new PIDController\<close>. \<open>update\<close> lives on the prototype of the class, so an object
  literal made by spreading a controller has the seven fields but no \<open>update\<close> method.
\<close>

datatype ControllerObject = ControllerObject (is_instance: bool) (own: PIDController)

datatype js_error = TypeError

text \<open>
  The call \<open>controller.update(error, dt)\<close>: a \<open>TypeError\<close> when the object has no such
  method.
\<close>

definition call_update ::
  "ControllerObject \<Rightarrow> number \<Rightarrow> number \<Rightarrow> js_error + number \<times> ControllerObject" where
  "call_update controller e dt =
     (if is_instance controller
      then (case update (own controller) e dt of
              (out, this') \<Rightarrow> Inr (out, ControllerObject True this'))
      else Inl TypeError)"

text \<open>The entry of one controller in a data point: \<open>{processVariable, error, output}\<close>.\<close>

record Sample =
  processVariable :: number
  error :: number
  "output" :: number

text \<open>
  A data point is a \<open>Record<string, any>\<close>: controller names are keys next to
  \<open>time\<close>, \<open>setpoint\<close> and \<open>disturbance\<close>, so a property holds an entry, a string or a
  number. Only own properties are modelled: a controller named like a property that every
  object inherits (\<open>constructor\<close>, \<open>toString\<close>, ...) is outside the model; the page names
  its controllers \<open>PID 1\<close>, \<open>PID 2\<close>, ...
\<close>

datatype jsvalue = Entry Sample | Str string | Num number

type_synonym DataPoint = "string \<rightharpoonup> jsvalue"

fun truthy :: "jsvalue \<Rightarrow> bool" where
  "truthy (Entry e) = True"
| "truthy (Str s) = (s \<noteq> [])"
| "truthy (Num a) = (\<not> (is_zero a \<or> isNaN a))"

text \<open>Reading \<open>.processVariable\<close> of a value: \<open>undefined\<close> (\<open>None\<close>) on a string or number.\<close>

fun get_processVariable :: "jsvalue \<Rightarrow> number option" where
  "get_processVariable (Entry e) = Some (processVariable e)"
| "get_processVariable _ = None"

record AdvancedPIDVisualizer =
  controllers :: "ControllerObject list"
  activeController :: nat
  setpoint :: number
  data :: "DataPoint list"
  time :: number
  disturbance :: number

definition initial :: AdvancedPIDVisualizer where
  "initial =
     \<lparr>controllers =
        [ControllerObject True (new_PIDController ''PID 1'' (Finite 1) (Finite 0) (Finite 0) PID),
         ControllerObject True (new_PIDController ''PID 2'' (Finite 1) (Finite 0) (Finite 0) PID)],
      activeController = 0, setpoint = Finite 0, data = [], time = Finite 0,
      disturbance = Finite 0\<rparr>"

subsection \<open>updateController\<close>

text \<open>A \<open>Partial<PIDController>\<close>: \<open>None\<close> for a property that is absent.\<close>

record PIDController_updates =
  u_name :: "string option"
  u_kp :: "number option"
  u_ki :: "number option"
  u_kd :: "number option"
  u_type :: "ControllerType option"
  u_integral :: "number option"
  u_previousError :: "number option"

definition no_updates :: PIDController_updates where
  "no_updates =
     \<lparr>u_name = None, u_kp = None, u_ki = None, u_kd = None, u_type = None,
      u_integral = None, u_previousError = None\<rparr>"

text \<open>
  \<open>{ ...controller, ...updates }\<close>: the own fields of the controller, overridden by the
  properties present in \<open>updates\<close>. The result is an object literal, not an instance.
\<close>

definition spread :: "ControllerObject \<Rightarrow> PIDController_updates \<Rightarrow> ControllerObject" where
  "spread controller updates =
     (let c = own controller
      in ControllerObject False
           \<lparr>name = case_option (name c) id (u_name updates),
            kp = case_option (kp c) id (u_kp updates),
            ki = case_option (ki c) id (u_ki updates),
            kd = case_option (kd c) id (u_kd updates),
            type = case_option (type c) id (u_type updates),
            integral = case_option (integral c) id (u_integral updates),
            previousError = case_option (previousError c) id (u_previousError updates)\<rparr>)"

text \<open>
  \<open>updateController(index, updates)\<close>. The page calls it with the index chosen in the
  selector, which is always inside the array. For an index outside it the source would
  extend the array by an object with only the properties of \<open>updates\<close>; such a state has
  no counterpart here, and the result is \<open>None\<close>.
\<close>

definition updateController ::
  "nat \<Rightarrow> PIDController_updates \<Rightarrow> AdvancedPIDVisualizer \<Rightarrow> AdvancedPIDVisualizer option" where
  "updateController index updates s =
     (if index < length (controllers s)
      then Some (s\<lparr>controllers :=
                   (controllers s)[index := spread (controllers s ! index) updates]\<rparr>)
      else None)"

text \<open>The Auto-tune button: the gains computed for a fixed process go to the active controller.\<close>

definition autoTuneController :: "AdvancedPIDVisualizer \<Rightarrow> AdvancedPIDVisualizer option" where
  "autoTuneController s =
     (let systemCharacteristics =
            \<lparr>processGain = Finite 1, timeConstant = Finite 1, deadTime = Finite 0.1\<rparr>;
          tuningParams = autoTune systemCharacteristics
      in updateController (activeController s)
           (no_updates\<lparr>u_kp := Some (TuningParams.kp tuningParams),
                       u_ki := Some (TuningParams.ki tuningParams),
                       u_kd := Some (TuningParams.kd tuningParams)\<rparr>) s)"

subsection \<open>updateSimulation\<close>

text \<open>
  \<open>prevData[prevData.length - 1]?.[controller.name] || { processVariable: 0, integral: 0 }\<close>
  followed by \<open>.processVariable\<close>: the literal is taken when the buffer is empty, when the
  last point has no such key, or when the value under the key is falsy.
\<close>

definition lastPoint_processVariable :: "DataPoint list \<Rightarrow> string \<Rightarrow> number option" where
  "lastPoint_processVariable prevData key =
     (case (if prevData = [] then None else (last prevData) key) of
        None \<Rightarrow> Some (Finite 0)
      | Some v \<Rightarrow> (if truthy v then get_processVariable v else Some (Finite 0)))"

text \<open>
  The callback of the \<open>reduce\<close> over the controllers. It mutates the controller by
  calling \<open>update\<close> and stores the controller's entry in the accumulated object; the
  result here is that object together with the controller after the call.
\<close>

definition reduce_callback ::
  "DataPoint list \<Rightarrow> number \<Rightarrow> number \<Rightarrow> DataPoint \<Rightarrow> ControllerObject \<Rightarrow>
   js_error + DataPoint \<times> ControllerObject" where
  "reduce_callback prevData sp dis acc controller =
     (let lastPoint_pv = ToNumber (lastPoint_processVariable prevData (name (own controller)));
          error = sp - lastPoint_pv
      in case call_update controller error (Finite 0.1) of
           Inl err \<Rightarrow> Inl err
         | Inr (out, controller') \<Rightarrow>
             (let newProcessVariable = lastPoint_pv + out * Finite 0.1 + dis
              in Inr (acc(name (own controller') \<mapsto>
                        Entry \<lparr>processVariable = newProcessVariable, error = error,
                               output = out\<rparr>),
                      controller')))"

text \<open>
  \<open>controllers.reduce(callback, {})\<close>, from left to right. A \<open>TypeError\<close> aborts the
  whole state updater.
\<close>

fun reduce_controllers ::
  "DataPoint list \<Rightarrow> number \<Rightarrow> number \<Rightarrow> ControllerObject list \<Rightarrow> DataPoint \<Rightarrow>
   js_error + DataPoint \<times> ControllerObject list" where
  "reduce_controllers prevData sp dis [] acc = Inr (acc, [])"
| "reduce_controllers prevData sp dis (controller # rest) acc =
     (case reduce_callback prevData sp dis acc controller of
        Inl err \<Rightarrow> Inl err
      | Inr (acc', controller') \<Rightarrow>
          (case reduce_controllers prevData sp dis rest acc' of
             Inl err \<Rightarrow> Inl err
           | Inr (newData, rest') \<Rightarrow> Inr (newData, controller' # rest')))"

text \<open>
  One run of \<open>updateSimulation\<close>, with the values of \<open>controllers\<close>, \<open>setpoint\<close>, \<open>time\<close>
  and \<open>disturbance\<close> that the callback closed over. The state updater runs once per call.
  Scheduling of the next frame is outside the model.
\<close>

definition updateSimulation ::
  "(number \<Rightarrow> string) \<Rightarrow> AdvancedPIDVisualizer \<Rightarrow> js_error + AdvancedPIDVisualizer" where
  "updateSimulation toFixed s =
     (let prevData = data s
      in case reduce_controllers prevData (setpoint s) (disturbance s) (controllers s) Map.empty of
           Inl err \<Rightarrow> Inl err
         | Inr (acc, controllers') \<Rightarrow>
             (let newData = acc(''time'' \<mapsto> Str (toFixed (time s)),
                                ''setpoint'' \<mapsto> Num (setpoint s),
                                ''disturbance'' \<mapsto> Num (disturbance s))
              in Inr (s\<lparr>controllers := controllers',
                        time := time s + Finite 0.1,
                        data := slice_neg 100 (prevData @ [newData])\<rparr>)))"

subsection \<open>Runs\<close>

text \<open>
  What can happen between two frames: a tick, or one of the state setters called by the
  controls of the page (with any argument).
\<close>

datatype event =
    Tick
  | SetSetpoint number
  | SetDisturbance number
  | SetControllers "ControllerObject list"

fun step ::
  "(number \<Rightarrow> string) \<Rightarrow> AdvancedPIDVisualizer \<Rightarrow> event \<Rightarrow> js_error + AdvancedPIDVisualizer" where
  "step toFixed s Tick = updateSimulation toFixed s"
| "step toFixed s (SetSetpoint v) = Inr (s\<lparr>setpoint := v\<rparr>)"
| "step toFixed s (SetDisturbance v) = Inr (s\<lparr>disturbance := v\<rparr>)"
| "step toFixed s (SetControllers cs) = Inr (s\<lparr>controllers := cs\<rparr>)"

fun run ::
  "(number \<Rightarrow> string) \<Rightarrow> AdvancedPIDVisualizer \<Rightarrow> event list \<Rightarrow> js_error + AdvancedPIDVisualizer" where
  "run toFixed s [] = Inr s"
| "run toFixed s (ev # evs) =
     (case step toFixed s ev of Inl err \<Rightarrow> Inl err | Inr s' \<Rightarrow> run toFixed s' evs)"

text \<open>
  The data points that the ticks of a run append, in the order of the ticks. This is an
  observation of the run (its unbounded history), not a part of the state.
\<close>

fun appended ::
  "(number \<Rightarrow> string) \<Rightarrow> AdvancedPIDVisualizer \<Rightarrow> event list \<Rightarrow> DataPoint list" where
  "appended toFixed s [] = []"
| "appended toFixed s (ev # evs) =
     (case step toFixed s ev of
        Inl err \<Rightarrow> []
      | Inr s' \<Rightarrow> (if ev = Tick then [last (data s')] else []) @ appended toFixed s' evs)"

subsection \<open>Analysis tab\<close>

text \<open>\<open>point[controller.name]?.processVariable\<close>.\<close>

definition point_processVariable :: "DataPoint \<Rightarrow> string \<Rightarrow> number option" where
  "point_processVariable point key =
     (case point key of None \<Rightarrow> None | Some v \<Rightarrow> get_processVariable v)"

text \<open>
  \<open>data.reduce((max, point) => Math.max(max, point[name]?.processVariable || 0), 0) - setpoint\<close>
\<close>

definition overshoot :: "DataPoint list \<Rightarrow> string \<Rightarrow> number \<Rightarrow> number" where
  "overshoot dat key sp =
     fold (\<lambda>point mx. Math_max mx (or_zero (point_processVariable point key))) dat (Finite 0) - sp"

text \<open>
  \<open>Math.abs(p[name]?.processVariable - setpoint) < 0.05 * setpoint\<close>, the test of the
  settling band.
\<close>

definition in_band :: "string \<Rightarrow> number \<Rightarrow> DataPoint \<Rightarrow> bool" where
  "in_band key sp point =
     num_lt (Math_abs (ToNumber (point_processVariable point key) - sp)) (Finite 0.05 * sp)"

text \<open>
  \<open>data.findIndex((point, i, arr) => i > 0 && band(point) && arr.slice(i).every(band)) * 0.1\<close>
\<close>

definition settlingTime :: "DataPoint list \<Rightarrow> string \<Rightarrow> number \<Rightarrow> number" where
  "settlingTime dat key sp =
     Finite (real_of_int
       (findIndex (\<lambda>point i arr. 0 < i \<and> in_band key sp point \<and> list_all (in_band key sp) (drop i arr))
          dat))
     * Finite 0.1"

text \<open>
  \<open>Math.abs(error) < 0.01 ? error : 'N/A'\<close> on the last data point: \<open>None\<close> stands for
  the string \<open>'N/A'\<close>.
\<close>

definition point_error :: "DataPoint \<Rightarrow> string \<Rightarrow> number option" where
  "point_error point key =
     (case point key of Some (Entry e) \<Rightarrow> Some (error e) | _ \<Rightarrow> None)"

definition steadyStateError :: "DataPoint list \<Rightarrow> string \<Rightarrow> number option" where
  "steadyStateError dat key =
     (let err = (if dat = [] then None else point_error (last dat) key)
      in if num_lt (Math_abs (ToNumber err)) (Finite 0.01) then err else None)"


section \<open>Arithmetic on finite numbers\<close>

text \<open>On finite operands the operations are those of the reals (division: by a non-zero).\<close>

lemma isFinite_add: "isFinite a \<Longrightarrow> isFinite b \<Longrightarrow> isFinite (a + b)"
  by (cases a; cases b) (auto simp: plus_number_def mk_fin_def mk_zero_def)

lemma num_val_add: "isFinite a \<Longrightarrow> isFinite b \<Longrightarrow> num_val (a + b) = num_val a + num_val b"
  by (cases a; cases b) (auto simp: plus_number_def mk_fin_def mk_zero_def)

lemma isFinite_uminus: "isFinite a \<Longrightarrow> isFinite (- a)"
  by (cases a) (auto simp: uminus_number_def)

lemma num_val_uminus: "isFinite a \<Longrightarrow> num_val (- a) = - num_val a"
  by (cases a) (auto simp: uminus_number_def)

lemma isFinite_sub: "isFinite a \<Longrightarrow> isFinite b \<Longrightarrow> isFinite (a - b)"
  by (simp add: minus_number_def isFinite_add isFinite_uminus)

lemma num_val_sub: "isFinite a \<Longrightarrow> isFinite b \<Longrightarrow> num_val (a - b) = num_val a - num_val b"
  by (simp add: minus_number_def num_val_add isFinite_uminus num_val_uminus)

lemma isFinite_mul: "isFinite a \<Longrightarrow> isFinite b \<Longrightarrow> isFinite (a * b)"
  by (cases a; cases b) (auto simp: times_number_def mk_fin_def mk_zero_def)

lemma num_val_mul: "isFinite a \<Longrightarrow> isFinite b \<Longrightarrow> num_val (a * b) = num_val a * num_val b"
  by (cases a; cases b) (auto simp: times_number_def mk_fin_def mk_zero_def)

lemma isFinite_div: "isFinite a \<Longrightarrow> isFinite b \<Longrightarrow> num_val b \<noteq> 0 \<Longrightarrow> isFinite (a / b)"
  by (cases a; cases b) (auto simp: divide_number_def mk_fin_def mk_zero_def)

lemma num_val_div:
  "isFinite a \<Longrightarrow> isFinite b \<Longrightarrow> num_val b \<noteq> 0 \<Longrightarrow> num_val (a / b) = num_val a / num_val b"
  by (cases a; cases b) (auto simp: divide_number_def mk_fin_def mk_zero_def)

lemmas finite_arith =
  isFinite_add num_val_add isFinite_sub num_val_sub isFinite_mul num_val_mul
  isFinite_div num_val_div

text \<open>Evaluation on literals.\<close>

lemma Finite_add: "Finite a + Finite b = Finite (a + b)"
  by (auto simp: plus_number_def mk_fin_def mk_zero_def)

lemma Finite_sub: "Finite a - Finite b = Finite (a - b)"
  by (auto simp: minus_number_def uminus_number_def plus_number_def mk_fin_def mk_zero_def)

lemma Finite_mul:
  "Finite a * Finite b = (if a * b = 0 \<and> (a < 0) \<noteq> (b < 0) then NegZero else Finite (a * b))"
  by (auto simp: times_number_def mk_fin_def mk_zero_def)

lemma Finite_div:
  "Finite a / Finite b =
     (if b = 0 then (if a = 0 then NaN else if a < 0 then NegInf else PosInf)
      else if a = 0 \<and> b < 0 then NegZero else Finite (a / b))"
  by (auto simp: divide_number_def mk_fin_def mk_zero_def mk_inf_def)

lemmas Finite_arith = Finite_add Finite_sub Finite_mul Finite_div

lemma NegZero_add: "Finite a + NegZero = Finite a" "NegZero + Finite a = Finite a"
  by (auto simp: plus_number_def mk_fin_def mk_zero_def)









section \<open>The controller: \<open>update\<close>\<close>

lemma update_fst:
  "fst (update c e dt) =
     (case type c of
        P \<Rightarrow> kp c * e
      | PI \<Rightarrow> kp c * e + ki c * (integral c + e * dt)
      | PD \<Rightarrow> kp c * e + kd c * ((e - previousError c) / dt)
      | PID \<Rightarrow> kp c * e + ki c * (integral c + e * dt) + kd c * ((e - previousError c) / dt))"
  by (simp add: update_def Let_def split: ControllerType.split)

lemma update_snd:
  "snd (update c e dt) = c\<lparr>integral := integral c + e * dt, previousError := e\<rparr>"
  by (simp add: update_def Let_def)

text \<open>
  C1. The output of \<open>update\<close> is fixed by the mode: \<open>kp * error\<close> in mode P, plus
  \<open>ki * integral\<close> in PI (the integral the controller holds after the call), plus
  \<open>kd * (error - previousError) / dt\<close> in PD (the previous error from before the call), and
  all three terms in PID; a gain whose term the mode leaves out does not occur. With a
  positive finite \<open>dt\<close> and finite gains, state and error, the output is the finite number
  given by the same formula over the reals.
\<close>

theorem update_output_by_mode:
  "fst (update c e dt) =
     (case type c of
        P \<Rightarrow> kp c * e
      | PI \<Rightarrow> kp c * e + ki c * integral (snd (update c e dt))
      | PD \<Rightarrow> kp c * e + kd c * ((e - previousError c) / dt)
      | PID \<Rightarrow> kp c * e + ki c * integral (snd (update c e dt))
                + kd c * ((e - previousError c) / dt))
   \<and> (isFinite dt \<and> 0 < num_val dt \<and> isFinite e \<and> isFinite (kp c) \<and> isFinite (ki c) \<and>
      isFinite (kd c) \<and> isFinite (integral c) \<and> isFinite (previousError c) \<longrightarrow>
      isFinite (fst (update c e dt)) \<and>
      num_val (fst (update c e dt)) =
        (case type c of
           P \<Rightarrow> num_val (kp c) * num_val e
         | PI \<Rightarrow> num_val (kp c) * num_val e
                + num_val (ki c) * num_val (integral (snd (update c e dt)))
         | PD \<Rightarrow> num_val (kp c) * num_val e
                + num_val (kd c) * ((num_val e - num_val (previousError c)) / num_val dt)
         | PID \<Rightarrow> num_val (kp c) * num_val e
                + num_val (ki c) * num_val (integral (snd (update c e dt)))
                + num_val (kd c) * ((num_val e - num_val (previousError c)) / num_val dt)))"
proof (rule conjI)
  show "fst (update c e dt) =
     (case type c of
        P \<Rightarrow> kp c * e
      | PI \<Rightarrow> kp c * e + ki c * integral (snd (update c e dt))
      | PD \<Rightarrow> kp c * e + kd c * ((e - previousError c) / dt)
      | PID \<Rightarrow> kp c * e + ki c * integral (snd (update c e dt))
                + kd c * ((e - previousError c) / dt))"
    by (cases "type c") (simp_all add: update_fst update_snd)
next
  show "isFinite dt \<and> 0 < num_val dt \<and> isFinite e \<and> isFinite (kp c) \<and> isFinite (ki c) \<and>
      isFinite (kd c) \<and> isFinite (integral c) \<and> isFinite (previousError c) \<longrightarrow>
      isFinite (fst (update c e dt)) \<and>
      num_val (fst (update c e dt)) =
        (case type c of
           P \<Rightarrow> num_val (kp c) * num_val e
         | PI \<Rightarrow> num_val (kp c) * num_val e
                + num_val (ki c) * num_val (integral (snd (update c e dt)))
         | PD \<Rightarrow> num_val (kp c) * num_val e
                + num_val (kd c) * ((num_val e - num_val (previousError c)) / num_val dt)
         | PID \<Rightarrow> num_val (kp c) * num_val e
                + num_val (ki c) * num_val (integral (snd (update c e dt)))
                + num_val (kd c) * ((num_val e - num_val (previousError c)) / num_val dt))"
  proof
    assume h: "isFinite dt \<and> 0 < num_val dt \<and> isFinite e \<and> isFinite (kp c) \<and> isFinite (ki c) \<and>
      isFinite (kd c) \<and> isFinite (integral c) \<and> isFinite (previousError c)"
    then have dt: "num_val dt \<noteq> 0"
      by simp
    have p: "isFinite (kp c * e)" "num_val (kp c * e) = num_val (kp c) * num_val e"
      using h by (simp_all add: finite_arith)
    have i: "isFinite (integral c + e * dt)"
      "num_val (integral c + e * dt) = num_val (integral c) + num_val e * num_val dt"
      using h by (simp_all add: finite_arith)
    have d: "isFinite ((e - previousError c) / dt)"
      "num_val ((e - previousError c) / dt) = (num_val e - num_val (previousError c)) / num_val dt"
      using h dt by (simp_all add: finite_arith)
    show "isFinite (fst (update c e dt)) \<and>
      num_val (fst (update c e dt)) =
        (case type c of
           P \<Rightarrow> num_val (kp c) * num_val e
         | PI \<Rightarrow> num_val (kp c) * num_val e
                + num_val (ki c) * num_val (integral (snd (update c e dt)))
         | PD \<Rightarrow> num_val (kp c) * num_val e
                + num_val (kd c) * ((num_val e - num_val (previousError c)) / num_val dt)
         | PID \<Rightarrow> num_val (kp c) * num_val e
                + num_val (ki c) * num_val (integral (snd (update c e dt)))
                + num_val (kd c) * ((num_val e - num_val (previousError c)) / num_val dt))"
      using h p i d by (cases "type c") (simp_all add: update_fst update_snd finite_arith)
  qed
qed

theorem update_output_by_mode_witness:
  "isFinite (Finite (1 / 2)) \<and> 0 < num_val (Finite (1 / 2)) \<and> isFinite (Finite 3) \<and>
   isFinite (kp \<lparr>name = ''PID 1'', kp = Finite 2, ki = Finite 3, kd = Finite 5, type = PID,
     integral = Finite 1, previousError = Finite 1\<rparr>) \<and>
   num_val (fst (update \<lparr>name = ''PID 1'', kp = Finite 2, ki = Finite 3, kd = Finite 5,
     type = PID, integral = Finite 1, previousError = Finite 1\<rparr> (Finite 3) (Finite (1 / 2))))
     = 67 / 2"
  using update_output_by_mode [of "\<lparr>name = ''PID 1'', kp = Finite 2, ki = Finite 3,
     kd = Finite 5, type = PID, integral = Finite 1, previousError = Finite 1\<rparr>"
     "Finite 3" "Finite (1 / 2)"]
  by (simp add: update_snd Finite_arith)

text \<open>
  C9. In every mode \<open>update\<close> changes the controller in the same way: the integral becomes
  \<open>integral + error * dt\<close>, the previous error becomes the error, and \<open>name\<close>, \<open>kp\<close>,
  \<open>ki\<close>, \<open>kd\<close> and \<open>type\<close> stay as they are. The state after a call does not depend on the
  mode, and changing the mode (by assignment, or by the spread of \<open>updateController\<close>) keeps
  \<open>integral\<close> and \<open>previousError\<close>. On finite values the new integral is the real
  \<open>integral + error * dt\<close>.
\<close>

theorem update_state_mode_independent:
  "snd (update c e dt) = c\<lparr>integral := integral c + e * dt, previousError := e\<rparr>
   \<and> (isFinite (integral c) \<and> isFinite e \<and> isFinite dt \<longrightarrow>
        isFinite (integral (snd (update c e dt))) \<and>
        num_val (integral (snd (update c e dt))) = num_val (integral c) + num_val e * num_val dt)
   \<and> name (snd (update c e dt)) = name c
   \<and> kp (snd (update c e dt)) = kp c
   \<and> ki (snd (update c e dt)) = ki c
   \<and> kd (snd (update c e dt)) = kd c
   \<and> type (snd (update c e dt)) = type c
   \<and> snd (update (c\<lparr>type := m\<rparr>) e dt) = (snd (update c e dt))\<lparr>type := m\<rparr>
   \<and> integral (own (spread (ControllerObject b c) (no_updates\<lparr>u_type := Some m\<rparr>))) = integral c
   \<and> previousError (own (spread (ControllerObject b c) (no_updates\<lparr>u_type := Some m\<rparr>)))
       = previousError c
   \<and> type (own (spread (ControllerObject b c) (no_updates\<lparr>u_type := Some m\<rparr>))) = m"
proof -
  have state: "snd (update c e dt) = c\<lparr>integral := integral c + e * dt, previousError := e\<rparr>"
    by (simp add: update_def Let_def)
  have frame: "name (snd (update c e dt)) = name c" "kp (snd (update c e dt)) = kp c"
    "ki (snd (update c e dt)) = ki c" "kd (snd (update c e dt)) = kd c"
    "type (snd (update c e dt)) = type c"
    by (simp_all add: state)
  have switch: "snd (update (c\<lparr>type := m\<rparr>) e dt) = (snd (update c e dt))\<lparr>type := m\<rparr>"
    by (simp add: update_def Let_def)
  have spread: "integral (own (spread (ControllerObject b c) (no_updates\<lparr>u_type := Some m\<rparr>)))
        = integral c"
    "previousError (own (spread (ControllerObject b c) (no_updates\<lparr>u_type := Some m\<rparr>)))
        = previousError c"
    "type (own (spread (ControllerObject b c) (no_updates\<lparr>u_type := Some m\<rparr>))) = m"
    by (simp_all add: spread_def no_updates_def)
  have real: "isFinite (integral c) \<and> isFinite e \<and> isFinite dt \<longrightarrow>
        isFinite (integral (snd (update c e dt))) \<and>
        num_val (integral (snd (update c e dt))) = num_val (integral c) + num_val e * num_val dt"
    by (simp add: state finite_arith)
  show ?thesis
    using state frame switch spread real by (intro conjI) assumption+
qed

text \<open>In mode P too: one call with error 1 and \<open>dt = 0.1\<close> on a fresh controller.\<close>

theorem update_state_mode_independent_witness:
  "isFinite (integral (new_PIDController ''PID 1'' (Finite 1) (Finite 0) (Finite 0) P)) \<and>
   isFinite (Finite 1) \<and> isFinite (Finite 0.1) \<and>
   type (new_PIDController ''PID 1'' (Finite 1) (Finite 0) (Finite 0) P) = P \<and>
   num_val (integral (snd (update (new_PIDController ''PID 1'' (Finite 1) (Finite 0) (Finite 0) P)
      (Finite 1) (Finite 0.1)))) = 0.1 \<and>
   previousError (snd (update (new_PIDController ''PID 1'' (Finite 1) (Finite 0) (Finite 0) P)
      (Finite 1) (Finite 0.1))) = Finite 1"
  using update_state_mode_independent [of "new_PIDController ''PID 1'' (Finite 1) (Finite 0) (Finite 0) P"
          "Finite 1" "Finite 0.1", THEN conjunct1]
        update_state_mode_independent [of "new_PIDController ''PID 1'' (Finite 1) (Finite 0) (Finite 0) P"
          "Finite 1" "Finite 0.1", THEN conjunct2, THEN conjunct1]
  by (simp add: new_PIDController_def)

text \<open>
  Ten such calls on a controller with gains 1, 0, 0: the integral is 1, the previous error 1,
  and the tenth output is still 1.
\<close>

lemma update_ten_times:
  "((\<lambda>c. snd (update c (Finite 1) (Finite 0.1))) ^^ 10)
      (new_PIDController ''PID 1'' (Finite 1) (Finite 0) (Finite 0) P)
   = \<lparr>name = ''PID 1'', kp = Finite 1, ki = Finite 0, kd = Finite 0, type = P,
      integral = Finite 1, previousError = Finite 1\<rparr>
   \<and> fst (update (((\<lambda>c. snd (update c (Finite 1) (Finite 0.1))) ^^ 9)
      (new_PIDController ''PID 1'' (Finite 1) (Finite 0) (Finite 0) P)) (Finite 1) (Finite 0.1))
     = Finite 1"
  by (simp add: eval_nat_numeral funpow_swap1 update_snd update_fst new_PIDController_def Finite_arith)

text \<open>
  C10. In modes PI and PID the integral term of the output is \<open>ki\<close> times the integral
  after this call's accumulation, \<open>integral + error * dt\<close>, and the derivative term uses
  the previous error from before the call, which the call then overwrites with the error.
  On finite values (and a non-zero \<open>dt\<close> for the derivative) the output is the real number
  \<open>kp * error + ki * (integral + error * dt)\<close>, plus
  \<open>kd * (error - previousError) / dt\<close> in mode PID.
\<close>

theorem update_integral_then_output:
  "(type c = PI \<longrightarrow>
      fst (update c e dt) = kp c * e + ki c * (integral c + e * dt))
   \<and> (type c = PID \<longrightarrow>
      fst (update c e dt) =
        kp c * e + ki c * (integral c + e * dt) + kd c * ((e - previousError c) / dt))
   \<and> integral (snd (update c e dt)) = integral c + e * dt
   \<and> previousError (snd (update c e dt)) = e
   \<and> (type c = PI \<and> isFinite (kp c) \<and> isFinite (ki c) \<and> isFinite (integral c) \<and>
      isFinite e \<and> isFinite dt \<longrightarrow>
        num_val (fst (update c e dt)) =
          num_val (kp c) * num_val e
          + num_val (ki c) * (num_val (integral c) + num_val e * num_val dt))
   \<and> (type c = PID \<and> isFinite (kp c) \<and> isFinite (ki c) \<and> isFinite (kd c) \<and>
      isFinite (integral c) \<and> isFinite (previousError c) \<and> isFinite e \<and> isFinite dt \<and>
      num_val dt \<noteq> 0 \<longrightarrow>
        num_val (fst (update c e dt)) =
          num_val (kp c) * num_val e
          + num_val (ki c) * (num_val (integral c) + num_val e * num_val dt)
          + num_val (kd c) * ((num_val e - num_val (previousError c)) / num_val dt))"
proof -
  have pi: "type c = PI \<longrightarrow>
      fst (update c e dt) = kp c * e + ki c * (integral c + e * dt)"
    by (simp add: update_def Let_def)
  have pid: "type c = PID \<longrightarrow>
      fst (update c e dt) =
        kp c * e + ki c * (integral c + e * dt) + kd c * ((e - previousError c) / dt)"
    by (simp add: update_def Let_def)
  have st: "integral (snd (update c e dt)) = integral c + e * dt"
    "previousError (snd (update c e dt)) = e"
    by (simp_all add: update_def Let_def)
  have rpi: "type c = PI \<and> isFinite (kp c) \<and> isFinite (ki c) \<and> isFinite (integral c) \<and>
      isFinite e \<and> isFinite dt \<longrightarrow>
        num_val (fst (update c e dt)) =
          num_val (kp c) * num_val e
          + num_val (ki c) * (num_val (integral c) + num_val e * num_val dt)"
    using pi by (simp add: finite_arith)
  have rpid: "type c = PID \<and> isFinite (kp c) \<and> isFinite (ki c) \<and> isFinite (kd c) \<and>
      isFinite (integral c) \<and> isFinite (previousError c) \<and> isFinite e \<and> isFinite dt \<and>
      num_val dt \<noteq> 0 \<longrightarrow>
        num_val (fst (update c e dt)) =
          num_val (kp c) * num_val e
          + num_val (ki c) * (num_val (integral c) + num_val e * num_val dt)
          + num_val (kd c) * ((num_val e - num_val (previousError c)) / num_val dt)"
    using pid by (simp add: finite_arith)
  show ?thesis
    using pi pid st rpi rpid by (intro conjI) assumption+
qed

text \<open>
  At this input the output is 67/2; with the integral or the previous error read in the
  other order it would be 29 or 27/2.
\<close>

theorem update_integral_then_output_witness:
  "type \<lparr>name = ''PID 1'', kp = Finite 2, ki = Finite 3, kd = Finite 5, type = PID,
     integral = Finite 1, previousError = Finite 1\<rparr> = PID \<and>
   fst (update \<lparr>name = ''PID 1'', kp = Finite 2, ki = Finite 3, kd = Finite 5, type = PID,
     integral = Finite 1, previousError = Finite 1\<rparr> (Finite 3) (Finite (1 / 2)))
     = Finite (67 / 2) \<and>
   Finite 2 * Finite 3 + Finite 3 * Finite 1
     + Finite 5 * ((Finite 3 - Finite 1) / Finite (1 / 2)) = Finite 29 \<and>
   Finite 2 * Finite 3 + Finite 3 * (Finite 1 + Finite 3 * Finite (1 / 2))
     + Finite 5 * ((Finite 3 - Finite 3) / Finite (1 / 2)) = Finite (27 / 2)"
  using update_integral_then_output [of "\<lparr>name = ''PID 1'', kp = Finite 2, ki = Finite 3,
     kd = Finite 5, type = PID, integral = Finite 1, previousError = Finite 1\<rparr>"
     "Finite 3" "Finite (1 / 2)"]
  by (simp add: Finite_arith)





section \<open>The auto-tuner\<close>

lemma autoTune_finite:
  assumes "isFinite (processGain s)" "isFinite (timeConstant s)" "isFinite (deadTime s)"
      and "num_val (deadTime s) \<noteq> 0"
  shows "isFinite (TuningParams.kp (autoTune s)) \<and> isFinite (TuningParams.ki (autoTune s)) \<and>
         isFinite (TuningParams.kd (autoTune s)) \<and>
         (let ku = 0.6 * num_val (processGain s) * (num_val (timeConstant s) / num_val (deadTime s));
              tu = 2 * num_val (deadTime s)
          in num_val (TuningParams.kp (autoTune s)) = 0.6 * ku \<and>
             num_val (TuningParams.ki (autoTune s)) = 1.2 * ku / tu \<and>
             num_val (TuningParams.kd (autoTune s)) = 0.075 * ku * tu)"
  using assms by (simp add: autoTune_def Let_def finite_arith)

lemma autoTune_example:
  "autoTune \<lparr>processGain = Finite 1, timeConstant = Finite 1, deadTime = Finite 0.1\<rparr>
     = \<lparr>TuningParams.kp = Finite 3.6, ki = Finite 36, kd = Finite 0.09\<rparr>"
  by (simp add: autoTune_def Let_def Finite_arith)

text \<open>
  C4, as the claim states it, fails in its example: for process gain 1, time constant 1
  and dead time 0.1 the formulas give \<open>kd = 0.075 * 6 * 0.2 = 0.09\<close>, not 0.54.
\<close>

theorem autoTune_example_kd_counterexample:
  "TuningParams.kd (autoTune \<lparr>processGain = Finite 1, timeConstant = Finite 1,
      deadTime = Finite 0.1\<rparr>) = Finite 0.09
   \<and> TuningParams.kd (autoTune \<lparr>processGain = Finite 1, timeConstant = Finite 1,
      deadTime = Finite 0.1\<rparr>) \<noteq> Finite 0.54"
  by (simp add: autoTune_def Let_def Finite_arith)

text \<open>
  C4, amended. \<open>autoTune\<close> returns exactly the triple of the closed-form formulas, and
  for finite inputs with a non-zero dead time this is the finite triple of the same formulas
  over the reals: \<open>ku = 0.6 * processGain * (timeConstant / deadTime)\<close>,
  \<open>tu = 2 * deadTime\<close>, \<open>kp = 0.6 * ku\<close>, \<open>ki = 1.2 * ku / tu\<close>, \<open>kd = 0.075 * ku * tu\<close>;
  for process gain 1, time constant 1 and dead time 0.1 this is \<open>kp = 3.6\<close>, \<open>ki = 36\<close>,
  \<open>kd = 0.09\<close>.
\<close>

theorem autoTune_closed_form:
  "autoTune s =
     (let ku = Finite 0.6 * processGain s * (timeConstant s / deadTime s);
          tu = Finite 2 * deadTime s
      in \<lparr>TuningParams.kp = Finite 0.6 * ku, ki = Finite 1.2 * ku / tu,
          kd = Finite 0.075 * ku * tu\<rparr>)
   \<and> (isFinite (processGain s) \<and> isFinite (timeConstant s) \<and> isFinite (deadTime s) \<and>
    num_val (deadTime s) \<noteq> 0 \<longrightarrow>
      isFinite (TuningParams.kp (autoTune s)) \<and> isFinite (TuningParams.ki (autoTune s)) \<and>
      isFinite (TuningParams.kd (autoTune s)) \<and>
      (let ku = 0.6 * num_val (processGain s) * (num_val (timeConstant s) / num_val (deadTime s));
           tu = 2 * num_val (deadTime s)
       in num_val (TuningParams.kp (autoTune s)) = 0.6 * ku \<and>
          num_val (TuningParams.ki (autoTune s)) = 1.2 * ku / tu \<and>
          num_val (TuningParams.kd (autoTune s)) = 0.075 * ku * tu))
   \<and> autoTune \<lparr>processGain = Finite 1, timeConstant = Finite 1, deadTime = Finite 0.1\<rparr>
       = \<lparr>TuningParams.kp = Finite 3.6, ki = Finite 36, kd = Finite 0.09\<rparr>"
  using autoTune_finite [of s] autoTune_example by (simp add: autoTune_def Let_def)

theorem autoTune_closed_form_witness:
  "isFinite (Finite 1) \<and> isFinite (Finite 0.1) \<and> num_val (Finite 0.1) \<noteq> 0 \<and>
   num_val (TuningParams.kp (autoTune \<lparr>processGain = Finite 1, timeConstant = Finite 1,
      deadTime = Finite 0.1\<rparr>)) = 3.6 \<and>
   num_val (TuningParams.ki (autoTune \<lparr>processGain = Finite 1, timeConstant = Finite 1,
      deadTime = Finite 0.1\<rparr>)) = 36 \<and>
   num_val (TuningParams.kd (autoTune \<lparr>processGain = Finite 1, timeConstant = Finite 1,
      deadTime = Finite 0.1\<rparr>)) = 0.09"
  using autoTune_closed_form [of "\<lparr>processGain = Finite 1, timeConstant = Finite 1,
      deadTime = Finite 0.1\<rparr>", THEN conjunct2, THEN conjunct1]
  by (simp add: Let_def)





section \<open>The multi-controller page: one tick\<close>

lemma slice_neg_length: "length (slice_neg n xs) = min n (length xs)"
  by (simp add: slice_neg_def)

lemma slice_neg_short: "length xs \<le> n \<Longrightarrow> slice_neg n xs = xs"
  by (simp add: slice_neg_def)

lemma last_slice_neg_snoc: "0 < n \<Longrightarrow> last (slice_neg n (xs @ [x])) = x"
  by (simp add: slice_neg_def)

lemma slice_neg_slice_neg_append: "slice_neg n (slice_neg n xs @ ys) = slice_neg n (xs @ ys)"
proof (cases "length xs \<le> n")
  case True
  then show ?thesis by (simp add: slice_neg_short)
next
  case False
  then show ?thesis by (simp add: slice_neg_def add.commute)
qed

lemma reduce_callback_instance:
  "is_instance c \<Longrightarrow>
   reduce_callback prevData sp dis acc c =
     (let pv = ToNumber (lastPoint_processVariable prevData (name (own c)));
          err = sp - pv;
          out = fst (update (own c) err (Finite 0.1))
      in Inr (acc(name (own c) \<mapsto>
                Entry \<lparr>processVariable = pv + out * Finite 0.1 + dis, error = err, output = out\<rparr>),
              ControllerObject True (snd (update (own c) err (Finite 0.1)))))"
  by (simp add: reduce_callback_def call_update_def Let_def update_snd case_prod_unfold)

lemma reduce_callback_plain:
  "\<not> is_instance c \<Longrightarrow> reduce_callback prevData sp dis acc c = Inl TypeError"
  by (simp add: reduce_callback_def call_update_def Let_def)

text \<open>
  On instances the \<open>reduce\<close> returns; keys other than the controllers' names keep the
  value of the starting object, and with distinct names each controller finds its own
  entry in the result.
\<close>

lemma reduce_controllers_instances:
  "list_all is_instance cs \<Longrightarrow>
   \<exists>acc' cs'. reduce_controllers prevData sp dis cs acc = Inr (acc', cs') \<and>
     list_all is_instance cs' \<and>
     map (\<lambda>c. name (own c)) cs' = map (\<lambda>c. name (own c)) cs \<and>
     (\<forall>k. k \<notin> set (map (\<lambda>c. name (own c)) cs) \<longrightarrow> acc' k = acc k) \<and>
     (distinct (map (\<lambda>c. name (own c)) cs) \<longrightarrow>
       (\<forall>c \<in> set cs. acc' (name (own c)) =
          (let pv = ToNumber (lastPoint_processVariable prevData (name (own c)));
               err = sp - pv;
               out = fst (update (own c) err (Finite 0.1))
           in Some (Entry \<lparr>processVariable = pv + out * Finite 0.1 + dis, error = err,
                           output = out\<rparr>))))"
proof (induction cs arbitrary: acc)
  case Nil
  then show ?case by simp
next
  case (Cons c cs)
  then have inst: "is_instance c" and rest: "list_all is_instance cs"
    by simp_all
  let ?pv = "ToNumber (lastPoint_processVariable prevData (name (own c)))"
  let ?err = "sp - ?pv"
  let ?out = "fst (update (own c) ?err (Finite 0.1))"
  let ?acc1 = "acc(name (own c) \<mapsto>
                Entry \<lparr>processVariable = ?pv + ?out * Finite 0.1 + dis, error = ?err,
                       output = ?out\<rparr>)"
  let ?c1 = "ControllerObject True (snd (update (own c) ?err (Finite 0.1)))"
  have cb: "reduce_callback prevData sp dis acc c = Inr (?acc1, ?c1)"
    using inst by (simp add: reduce_callback_instance Let_def)
  from Cons.IH [OF rest, of ?acc1] obtain acc' cs' where
    r: "reduce_controllers prevData sp dis cs ?acc1 = Inr (acc', cs')"
    and i: "list_all is_instance cs'"
    and n: "map (\<lambda>c. name (own c)) cs' = map (\<lambda>c. name (own c)) cs"
    and f: "\<forall>k. k \<notin> set (map (\<lambda>c. name (own c)) cs) \<longrightarrow> acc' k = ?acc1 k"
    and d: "distinct (map (\<lambda>c. name (own c)) cs) \<longrightarrow>
       (\<forall>c \<in> set cs. acc' (name (own c)) =
          (let pv = ToNumber (lastPoint_processVariable prevData (name (own c)));
               err = sp - pv;
               out = fst (update (own c) err (Finite 0.1))
           in Some (Entry \<lparr>processVariable = pv + out * Finite 0.1 + dis, error = err,
                           output = out\<rparr>)))"
    by blast
  have res: "reduce_controllers prevData sp dis (c # cs) acc = Inr (acc', ?c1 # cs')"
    using cb r by simp
  have "list_all is_instance (?c1 # cs')"
    using i by simp
  moreover have "map (\<lambda>c. name (own c)) (?c1 # cs') = map (\<lambda>c. name (own c)) (c # cs)"
    using n by (simp add: update_snd)
  moreover have "\<forall>k. k \<notin> set (map (\<lambda>c. name (own c)) (c # cs)) \<longrightarrow> acc' k = acc k"
    using f by auto
  moreover have "distinct (map (\<lambda>c. name (own c)) (c # cs)) \<longrightarrow>
       (\<forall>x \<in> set (c # cs). acc' (name (own x)) =
          (let pv = ToNumber (lastPoint_processVariable prevData (name (own x)));
               err = sp - pv;
               out = fst (update (own x) err (Finite 0.1))
           in Some (Entry \<lparr>processVariable = pv + out * Finite 0.1 + dis, error = err,
                           output = out\<rparr>)))"
  proof (intro impI ballI)
    fix x
    assume dist: "distinct (map (\<lambda>c. name (own c)) (c # cs))" and x: "x \<in> set (c # cs)"
    show "acc' (name (own x)) =
          (let pv = ToNumber (lastPoint_processVariable prevData (name (own x)));
               err = sp - pv;
               out = fst (update (own x) err (Finite 0.1))
           in Some (Entry \<lparr>processVariable = pv + out * Finite 0.1 + dis, error = err,
                           output = out\<rparr>))"
    proof (cases "x \<in> set cs")
      case True
      then show ?thesis using d dist by simp
    next
      case False
      then have xc: "x = c" using x by simp
      have "name (own c) \<notin> set (map (\<lambda>c. name (own c)) cs)"
        using dist by simp
      then have "acc' (name (own c)) = ?acc1 (name (own c))"
        using f by blast
      then show ?thesis using xc by (simp add: Let_def)
    qed
  qed
  ultimately show ?case using res by blast
qed

text \<open>As soon as one element of the array has no \<open>update\<close> method, the \<open>reduce\<close> throws.\<close>

lemma reduce_controllers_plain:
  "\<not> list_all is_instance cs \<Longrightarrow> reduce_controllers prevData sp dis cs acc = Inl TypeError"
proof (induction cs arbitrary: acc)
  case Nil
  then show ?case by simp
next
  case (Cons c cs)
  show ?case
  proof (cases "is_instance c")
    case True
    then have "\<not> list_all is_instance cs"
      using Cons.prems by simp
    then show ?thesis using Cons.IH True by (simp add: reduce_callback_instance Let_def)
  next
    case False
    then show ?thesis by (simp add: reduce_callback_plain)
  qed
qed

lemma updateSimulation_TypeError:
  "\<not> list_all is_instance (controllers s) \<Longrightarrow> updateSimulation toFixed s = Inl TypeError"
  by (simp add: updateSimulation_def reduce_controllers_plain)

text \<open>
  Hence the tick that follows an \<open>updateController\<close> (a move of a gain slider, a change
  of the mode, Auto-tune) throws: the edited controller is an object literal.
\<close>

lemma updateSimulation_after_updateController:
  assumes "index < length (controllers s)"
  shows "\<exists>s'. updateController index updates s = Some s' \<and>
              updateSimulation toFixed s' = Inl TypeError"
proof -
  let ?s' = "s\<lparr>controllers := (controllers s)[index := spread (controllers s ! index) updates]\<rparr>"
  have u: "updateController index updates s = Some ?s'"
    using assms by (simp add: updateController_def)
  have "\<not> is_instance (spread (controllers s ! index) updates)"
    by (simp add: spread_def Let_def)
  moreover have "spread (controllers s ! index) updates \<in> set (controllers ?s')"
    using assms by (simp add: set_update_memI)
  ultimately have "\<not> list_all is_instance (controllers ?s')"
    by (auto simp: list_all_iff)
  then have "updateSimulation toFixed ?s' = Inl TypeError"
    by (rule updateSimulation_TypeError)
  then show ?thesis using u by blast
qed

lemma updateSimulation_instances:
  assumes "list_all is_instance (controllers s)"
  shows "\<exists>s'. updateSimulation toFixed s = Inr s' \<and> list_all is_instance (controllers s')"
proof -
  from reduce_controllers_instances [OF assms, of "data s" "setpoint s" "disturbance s" Map.empty]
  obtain acc' cs' where
    "reduce_controllers (data s) (setpoint s) (disturbance s) (controllers s) Map.empty
       = Inr (acc', cs')"
    "list_all is_instance cs'"
    by blast
  then show ?thesis by (simp add: updateSimulation_def Let_def)
qed

text \<open>A tick that returns appends one point, stamped with the time, setpoint and disturbance
  of the state it started from, and keeps the last 100.\<close>

lemma updateSimulation_data:
  "updateSimulation toFixed s = Inr s' \<Longrightarrow>
   \<exists>p. data s' = slice_neg 100 (data s @ [p]) \<and> last (data s') = p \<and>
       p ''time'' = Some (Str (toFixed (time s))) \<and>
       p ''setpoint'' = Some (Num (setpoint s)) \<and>
       p ''disturbance'' = Some (Num (disturbance s))"
  by (auto simp: updateSimulation_def Let_def last_slice_neg_snoc split: sum.splits)

lemma updateSimulation_frame:
  "updateSimulation toFixed s = Inr s' \<Longrightarrow>
   time s' = time s + Finite 0.1 \<and> setpoint s' = setpoint s \<and> disturbance s' = disturbance s"
  by (auto simp: updateSimulation_def Let_def split: sum.splits)





section \<open>The history buffer\<close>

lemma run_data:
  "run toFixed s evs = Inr s' \<Longrightarrow> length (data s) \<le> 100 \<Longrightarrow>
   data s' = slice_neg 100 (data s @ appended toFixed s evs)"
proof (induction evs arbitrary: s)
  case Nil
  then show ?case by (simp add: slice_neg_short)
next
  case (Cons ev evs)
  from Cons.prems(1) obtain s1 where
    st: "step toFixed s ev = Inr s1" and rn: "run toFixed s1 evs = Inr s'"
    by (auto split: sum.splits)
  show ?case
  proof (cases "ev = Tick")
    case True
    then have "updateSimulation toFixed s = Inr s1"
      using st by simp
    then obtain p where p: "data s1 = slice_neg 100 (data s @ [p])" "last (data s1) = p"
      using updateSimulation_data by blast
    have len1: "length (data s1) \<le> 100"
      by (simp add: p(1) slice_neg_length)
    have "data s' = slice_neg 100 (data s1 @ appended toFixed s1 evs)"
      using Cons.IH [OF rn len1] .
    then have "data s' = slice_neg 100 ((data s @ [p]) @ appended toFixed s1 evs)"
      by (simp only: p(1) slice_neg_slice_neg_append)
    then show ?thesis using st True p(2) by simp
  next
    case False
    then have same: "data s1 = data s"
      using st by (cases ev) auto
    then have "data s' = slice_neg 100 (data s @ appended toFixed s1 evs)"
      using Cons.IH [OF rn] Cons.prems(2) by simp
    then show ?thesis using st False by simp
  qed
qed

lemma appended_length:
  "run toFixed s evs = Inr s' \<Longrightarrow> length (appended toFixed s evs) = count_list evs Tick"
  by (induction evs arbitrary: s) (auto split: sum.splits)

text \<open>
  C3. Along every run that starts with at most 100 points (the page starts with none), the
  buffer never holds more than 100 points, and it is the last 100 of everything appended so
  far, in the order of the ticks: the oldest points are the ones dropped. After 150 ticks
  from an empty buffer it holds exactly 100 points, and its first point is the one that the
  51st tick appended (so it carries that tick's time).
\<close>

theorem history_buffer_fifo:
  assumes "run toFixed s evs = Inr s'" and "length (data s) \<le> 100"
  shows "length (data s') \<le> 100
       \<and> length (appended toFixed s evs) = count_list evs Tick
       \<and> data s' = slice_neg 100 (data s @ appended toFixed s evs)
       \<and> (data s = [] \<and> count_list evs Tick = 150 \<longrightarrow>
            length (data s') = 100 \<and> data s' ! 0 = appended toFixed s evs ! 50 \<and>
            (\<forall>i < 100. data s' ! i = appended toFixed s evs ! (50 + i)))"
proof -
  have d: "data s' = slice_neg 100 (data s @ appended toFixed s evs)"
    using assms by (rule run_data)
  have l: "length (appended toFixed s evs) = count_list evs Tick"
    using assms(1) by (rule appended_length)
  have b: "length (data s') \<le> 100"
    by (simp add: d slice_neg_length)
  have "length (data s') = 100 \<and> data s' ! 0 = appended toFixed s evs ! 50 \<and>
            (\<forall>i < 100. data s' ! i = appended toFixed s evs ! (50 + i))"
    if "data s = []" "count_list evs Tick = 150"
    using that l by (simp add: d slice_neg_def)
  then show ?thesis using d l b by blast
qed

text \<open>
  A run of ticks over instances returns, and the point of tick number \<open>i + 1\<close> is stamped
  with the time before that tick, \<open>i\<close> steps of 0.1 after the start.
\<close>

lemma run_ticks:
  "list_all is_instance (controllers s) \<Longrightarrow> time s = Finite t \<Longrightarrow> 0 \<le> t \<Longrightarrow>
   \<exists>s'. run toFixed s (replicate k Tick) = Inr s' \<and>
     (\<forall>i<k. (appended toFixed s (replicate k Tick) ! i) ''time''
               = Some (Str (toFixed (Finite (t + real i / 10)))))"
proof (induction k arbitrary: s t)
  case 0
  then show ?case by simp
next
  case (Suc k)
  from updateSimulation_instances [OF Suc.prems(1), of toFixed] obtain s1 where
    u: "updateSimulation toFixed s = Inr s1" and i1: "list_all is_instance (controllers s1)"
    by blast
  from updateSimulation_data [OF u] obtain p where
    p: "last (data s1) = p" "p ''time'' = Some (Str (toFixed (time s)))"
    by blast
  have t1: "time s1 = Finite (t + 1 / 10)"
    using updateSimulation_frame [OF u] Suc.prems(2) by (simp add: Finite_add)
  from Suc.IH [OF i1 t1] Suc.prems(3) obtain s' where
    r: "run toFixed s1 (replicate k Tick) = Inr s'"
    and a: "\<forall>i<k. (appended toFixed s1 (replicate k Tick) ! i) ''time''
               = Some (Str (toFixed (Finite (t + 1 / 10 + real i / 10))))"
    by auto
  have run: "run toFixed s (replicate (Suc k) Tick) = Inr s'"
    using u r by simp
  have app: "appended toFixed s (replicate (Suc k) Tick)
      = last (data s1) # appended toFixed s1 (replicate k Tick)"
    using u by simp
  have "(appended toFixed s (replicate (Suc k) Tick) ! i) ''time''
               = Some (Str (toFixed (Finite (t + real i / 10))))" if "i < Suc k" for i
  proof (cases i)
    case 0
    then show ?thesis using app p Suc.prems(2) by simp
  next
    case (Suc j)
    then have "j < k"
      using that by simp
    then have "(appended toFixed s1 (replicate k Tick) ! j) ''time''
               = Some (Str (toFixed (Finite (t + 1 / 10 + real j / 10))))"
      using a by blast
    moreover have "t + 1 / 10 + real j / 10 = t + real (Suc j) / 10"
      by simp
    ultimately show ?thesis using app Suc by simp
  qed
  then show ?case using run by blast
qed

lemma count_list_replicate_same: "count_list (replicate n x) x = n"
  by (induction n) simp_all

lemma toFixed1_5: "toFixed1 (Finite 5) = ''5.0''"
  by (simp add: toFixed1_def Let_def show_nat.simps [of 5] show_nat.simps [of 0])

text \<open>On the page as it starts, 150 ticks leave 100 points, the first one stamped \<open>5.0\<close>.\<close>

theorem history_buffer_fifo_witness:
  "length (data initial) \<le> 100 \<and> data initial = [] \<and>
   count_list (replicate 150 Tick) Tick = 150 \<and>
   (\<exists>s'. run toFixed1 initial (replicate 150 Tick) = Inr s' \<and>
      length (data s') = 100 \<and>
      data s' ! 0 = appended toFixed1 initial (replicate 150 Tick) ! 50 \<and>
      (data s' ! 0) ''time'' = Some (Str ''5.0''))"
proof -
  have i: "list_all is_instance (controllers initial)" and t: "time initial = Finite 0"
    and e: "data initial = []"
    by (simp_all add: initial_def)
  have l: "length (data initial) \<le> 100"
    by (simp add: e)
  have c: "count_list (replicate 150 Tick) Tick = 150"
    by (rule count_list_replicate_same)
  from run_ticks [OF i t, of toFixed1 150] obtain s' where
    r: "run toFixed1 initial (replicate 150 Tick) = Inr s'"
    and a: "\<forall>i<150. (appended toFixed1 initial (replicate 150 Tick) ! i) ''time''
               = Some (Str (toFixed1 (Finite (0 + real i / 10))))"
    by auto
  have ante: "data initial = [] \<and> count_list (replicate 150 Tick) Tick = 150"
    using e c by (rule conjI)
  note q = history_buffer_fifo [OF r l, THEN conjunct2, THEN conjunct2, THEN conjunct2,
      THEN mp, OF ante]
  have "(appended toFixed1 initial (replicate 150 Tick) ! 50) ''time'' = Some (Str ''5.0'')"
    using a toFixed1_5 by simp
  moreover have "length (data s') = 100"
    using q by (rule conjunct1)
  moreover have "data s' ! 0 = appended toFixed1 initial (replicate 150 Tick) ! 50"
    using q [THEN conjunct2] by (rule conjunct1)
  ultimately show ?thesis using r l e c by simp
qed


section \<open>The analysis tab\<close>

subsection \<open>Overshoot\<close>

lemma Math_max_finite:
  "isFinite a \<Longrightarrow> isFinite b \<Longrightarrow>
   isFinite (Math_max a b) \<and> num_val (Math_max a b) = max (num_val a) (num_val b)"
  by (cases a; cases b) (auto simp: Math_max_def num_lt_def)

lemma fold_Math_max_finite:
  "\<forall>p \<in> set dat. isFinite (v p) \<Longrightarrow> isFinite m \<Longrightarrow>
   isFinite (fold (\<lambda>p mx. Math_max mx (v p)) dat m) \<and>
   num_val (fold (\<lambda>p mx. Math_max mx (v p)) dat m)
     = Max (set (num_val m # map (\<lambda>p. num_val (v p)) dat))"
proof (induction dat arbitrary: m)
  case Nil
  then show ?case by simp
next
  case (Cons p dat)
  have fp: "isFinite (v p)" and rest: "\<forall>p \<in> set dat. isFinite (v p)"
    using Cons.prems(1) by simp_all
  have mm: "isFinite (Math_max m (v p))"
    and mv: "num_val (Math_max m (v p)) = max (num_val m) (num_val (v p))"
    using Math_max_finite [OF Cons.prems(2) fp] by simp_all
  have "Max (set (max (num_val m) (num_val (v p)) # map (\<lambda>p. num_val (v p)) dat))
      = Max (set (num_val m # map (\<lambda>p. num_val (v p)) (p # dat)))"
    by (cases "dat = []") (simp_all add: max.assoc)
  then show ?case using Cons.IH [OF rest mm] mv by simp
qed

text \<open>
  C8, as the claim states it, fails: for one sample with process variable -2 and setpoint
  -1 the maximum minus the setpoint is -1, and the trajectory never exceeds the setpoint,
  but the page computes 1.
\<close>

theorem overshoot_floor_counterexample:
  "overshoot
     [[''PID 1'' \<mapsto> Entry \<lparr>processVariable = Finite (- 2), error = Finite 1, output = Finite 1\<rparr>]]
     ''PID 1'' (Finite (- 1)) = Finite 1"
  by (simp add: overshoot_def point_processVariable_def or_zero_def Math_max_def num_lt_def
      Finite_arith)

text \<open>
  C8, amended. The overshoot is the maximum of 0 and of the process variables of all
  samples, a sample without a value for the controller (or with the value NaN or 0)
  counting as 0, minus the current setpoint; the \<open>reduce\<close> starts from 0. With finite
  values it is a finite number, for the empty buffer too, and it is at most 0 when the
  setpoint is not negative and no process variable exceeds it.
\<close>

theorem overshoot_max_with_zero:
  assumes "\<forall>p \<in> set dat. isFinite (or_zero (point_processVariable p key))"
      and "isFinite sp"
  shows "isFinite (overshoot dat key sp)
       \<and> num_val (overshoot dat key sp)
           = Max (set (0 # map (\<lambda>p. num_val (or_zero (point_processVariable p key))) dat))
             - num_val sp
       \<and> (0 \<le> num_val sp \<and>
          (\<forall>p \<in> set dat. num_val (or_zero (point_processVariable p key)) \<le> num_val sp) \<longrightarrow>
            num_val (overshoot dat key sp) \<le> 0)"
proof -
  let ?v = "\<lambda>p. or_zero (point_processVariable p key)"
  let ?m = "fold (\<lambda>p mx. Math_max mx (?v p)) dat (Finite 0)"
  have f: "isFinite ?m"
    and v: "num_val ?m = Max (set (0 # map (\<lambda>p. num_val (?v p)) dat))"
    using fold_Math_max_finite [of dat ?v "Finite 0"] assms(1) by simp_all
  have 1: "isFinite (overshoot dat key sp)"
    using f assms(2) by (simp add: overshoot_def isFinite_sub)
  have 2: "num_val (overshoot dat key sp)
           = Max (set (0 # map (\<lambda>p. num_val (?v p)) dat)) - num_val sp"
    using f v assms(2) by (simp add: overshoot_def num_val_sub)
  have 3: "num_val (overshoot dat key sp) \<le> 0"
    if "0 \<le> num_val sp" "\<forall>p \<in> set dat. num_val (?v p) \<le> num_val sp"
  proof -
    have "Max (set (0 # map (\<lambda>p. num_val (?v p)) dat)) \<le> num_val sp"
      using that by (subst Max_le_iff) auto
    then show ?thesis using 2 by simp
  qed
  show ?thesis using 1 2 3 by blast
qed

theorem overshoot_max_with_zero_witness:
  "isFinite (or_zero (point_processVariable
      [''PID 1'' \<mapsto> Entry \<lparr>processVariable = Finite 0.5, error = Finite 1, output = Finite 1\<rparr>]
      ''PID 1''))
   \<and> isFinite (Finite 1) \<and> 0 \<le> num_val (Finite 1)
   \<and> num_val (overshoot
        [[''PID 1'' \<mapsto> Entry \<lparr>processVariable = Finite 0.5, error = Finite 1, output = Finite 1\<rparr>]]
        ''PID 1'' (Finite 1)) = - 0.5
   \<and> num_val (overshoot
        [[''PID 1'' \<mapsto> Entry \<lparr>processVariable = Finite 0.5, error = Finite 1, output = Finite 1\<rparr>]]
        ''PID 1'' (Finite 1)) \<le> 0"
  using overshoot_max_with_zero [of
      "[[''PID 1'' \<mapsto> Entry \<lparr>processVariable = Finite 0.5, error = Finite 1, output = Finite 1\<rparr>]]"
      "''PID 1''" "Finite 1"]
  by (simp add: point_processVariable_def or_zero_def)

subsection \<open>Settling time\<close>

lemma findIndex_from_none:
  "(\<forall>j<length xs. \<not> pred (xs ! j) (i + j) arr) \<Longrightarrow> findIndex_from pred arr i xs = - 1"
proof (induction xs arbitrary: i)
  case Nil
  then show ?case by simp
next
  case (Cons x xs)
  have "\<not> pred x i arr"
    using Cons.prems by (auto dest: spec [of _ 0])
  moreover have "\<forall>j<length xs. \<not> pred (xs ! j) (Suc i + j) arr"
    using Cons.prems by (auto dest: spec [of _ "Suc j" for j])
  ultimately show ?case using Cons.IH [of "Suc i"] by simp
qed

lemma findIndex_from_first:
  "k < length xs \<Longrightarrow> pred (xs ! k) (i + k) arr \<Longrightarrow> (\<forall>j<k. \<not> pred (xs ! j) (i + j) arr) \<Longrightarrow>
   findIndex_from pred arr i xs = int (i + k)"
proof (induction xs arbitrary: i k)
  case Nil
  then show ?case by simp
next
  case (Cons x xs)
  show ?case
  proof (cases k)
    case 0
    then show ?thesis using Cons.prems by simp
  next
    case (Suc k')
    have "\<not> pred x i arr"
      using Cons.prems(3) Suc by (auto dest: spec [of _ 0])
    moreover have "findIndex_from pred arr (Suc i) xs = int (Suc i + k')"
    proof (rule Cons.IH)
      show "k' < length xs"
        using Cons.prems(1) Suc by simp
      show "pred (xs ! k') (Suc i + k') arr"
        using Cons.prems(2) Suc by simp
      show "\<forall>j<k'. \<not> pred (xs ! j) (Suc i + j) arr"
      proof (intro allI impI)
        fix j
        assume "j < k'"
        then have "Suc j < k"
          using Suc by simp
        then have "\<not> pred ((x # xs) ! Suc j) (i + Suc j) arr"
          using Cons.prems(3) by blast
        then show "\<not> pred (xs ! j) (Suc i + j) arr"
          by simp
      qed
    qed
    ultimately show ?thesis using Suc by simp
  qed
qed

text \<open>
  Where the trajectory settles, the result is 0.1 times the first index \<open>k > 0\<close> from which
  every sample is inside the band \<open>|processVariable - setpoint| < 0.05 * setpoint\<close>.
\<close>

lemma settlingTime_first:
  assumes "0 < k" "k < length dat" "list_all (in_band key sp) (drop k dat)"
      and "\<forall>j. 0 < j \<and> j < k \<longrightarrow> \<not> list_all (in_band key sp) (drop j dat)"
  shows "settlingTime dat key sp = Finite (real k / 10)"
proof -
  have "in_band key sp (dat ! k)"
    using assms(2,3) by (simp add: list_all_iff) (metis Cons_nth_drop_Suc list.set_intros(1))
  then have "findIndex (\<lambda>point i arr. 0 < i \<and> in_band key sp point \<and>
                list_all (in_band key sp) (drop i arr)) dat = int (0 + k)"
    unfolding findIndex_def using assms by (intro findIndex_from_first) auto
  then show ?thesis using assms(1) by (simp add: settlingTime_def Finite_arith)
qed

text \<open>Where it never settles, the index -1 of \<open>findIndex\<close> is multiplied like any other.\<close>

lemma settlingTime_never:
  assumes "\<forall>j. 0 < j \<and> j < length dat \<longrightarrow> \<not> list_all (in_band key sp) (drop j dat)"
  shows "settlingTime dat key sp = Finite (- (1 / 10))"
proof -
  have "findIndex (\<lambda>point i arr. 0 < i \<and> in_band key sp point \<and>
                list_all (in_band key sp) (drop i arr)) dat = - 1"
    unfolding findIndex_def using assms by (intro findIndex_from_none) auto
  then show ?thesis by (simp add: settlingTime_def Finite_arith)
qed

text \<open>The band is \<open>0.05 * setpoint\<close>, without absolute value: empty for a setpoint \<open>\<le> 0\<close>.\<close>

lemma in_band_nonpositive_setpoint:
  "isFinite sp \<Longrightarrow> num_val sp \<le> 0 \<Longrightarrow> \<not> in_band key sp point"
  by (cases sp; cases "ToNumber (point_processVariable point key) - sp")
     (auto simp: in_band_def num_lt_def Math_abs_def times_number_def mk_fin_def mk_zero_def
        mult_le_0_iff)

lemma settlingTime_nonpositive_setpoint:
  "isFinite sp \<Longrightarrow> num_val sp \<le> 0 \<Longrightarrow> settlingTime dat key sp = Finite (- (1 / 10))"
proof (rule settlingTime_never, intro allI impI)
  fix j
  assume sp: "isFinite sp" "num_val sp \<le> 0" and j: "0 < j \<and> j < length dat"
  then have "dat ! j \<in> set (drop j dat)"
    by (metis Cons_nth_drop_Suc list.set_intros(1))
  then show "\<not> list_all (in_band key sp) (drop j dat)"
    using in_band_nonpositive_setpoint [OF sp] by (auto simp: list_all_iff)
qed

text \<open>
  C7 fails on the code, which has no case for a trajectory that has not settled. On the
  page as it starts, with the setpoint set to 1, the analysis after two ticks gives the
  settling time -0.1 (shown as \<open>-0.10s\<close>), where the claim asks for "undefined"; the same
  for an empty buffer. For the setpoint -1 and two samples that sit exactly on it the
  claim asks for 0.1, and the code gives -0.1 again.
\<close>

theorem settlingTime_unsettled_negative:
  "(\<exists>s. run toFixed1 initial [SetSetpoint (Finite 1), Tick, Tick] = Inr s \<and>
        point_processVariable (data s ! 0) ''PID 1'' = Some (Finite 0.1) \<and>
        point_processVariable (data s ! 1) ''PID 1'' = Some (Finite 0.19) \<and>
        settlingTime (data s) ''PID 1'' (setpoint s) = Finite (- 0.1))
   \<and> settlingTime [] ''PID 1'' (Finite 1) = Finite (- 0.1)
   \<and> settlingTime
     [[''PID 1'' \<mapsto> Entry \<lparr>processVariable = Finite (- 1), error = Finite 0, output = Finite 0\<rparr>],
      [''PID 1'' \<mapsto> Entry \<lparr>processVariable = Finite (- 1), error = Finite 0, output = Finite 0\<rparr>]]
     ''PID 1'' (Finite (- 1)) = Finite (- 0.1)"
  by (simp add: initial_def new_PIDController_def updateSimulation_def reduce_callback_def
      call_update_def update_def lastPoint_processVariable_def ToNumber_def Let_def
      slice_neg_def Finite_arith settlingTime_def findIndex_def in_band_def
      point_processVariable_def Math_abs_def num_lt_def NegZero_add)

text \<open>
  The steady-state error next to it does have the case: outside the band of 0.01 (or with
  no sample) it is \<open>'N/A'\<close>.
\<close>

lemma steadyStateError_NA:
  "steadyStateError [] key = None
   \<and> steadyStateError
       [[''PID 1'' \<mapsto> Entry \<lparr>processVariable = Finite 0, error = Finite 1, output = Finite 1\<rparr>]]
       ''PID 1'' = None
   \<and> steadyStateError
       [[''PID 1'' \<mapsto> Entry \<lparr>processVariable = Finite 1, error = Finite 0, output = Finite 0\<rparr>]]
       ''PID 1'' = Some (Finite 0)"
  by (simp add: steadyStateError_def point_error_def ToNumber_def Math_abs_def num_lt_def)


section \<open>The single-controller page\<close>

text \<open>
  The same plant and the same buffer: the error is the setpoint minus the last process
  variable (0 for the first tick), the disturbance enters only the new process variable,
  and the buffer keeps the last 100 points.
\<close>

lemma PIDVisualizer_updateSimulation_point:
  "\<exists>p. PIDVisualizer.data (PIDVisualizer_updateSimulation toFixed s)
         = slice_neg 100 (PIDVisualizer.data s @ [p]) \<and>
       last (PIDVisualizer.data (PIDVisualizer_updateSimulation toFixed s)) = p \<and>
       (let pv = (if PIDVisualizer.data s = [] then Finite 0
                  else Point.processVariable (last (PIDVisualizer.data s)))
        in Point.error p = PIDVisualizer.setpoint s - pv \<and>
           Point.processVariable p
             = pv + Point.output p * Finite 0.1 + PIDVisualizer.disturbance s)"
  by (simp add: PIDVisualizer_updateSimulation_def Let_def last_slice_neg_snoc)

lemma PIDVisualizer_updateSimulation_length:
  "length (PIDVisualizer.data (PIDVisualizer_updateSimulation toFixed s)) \<le> 100"
  by (simp add: PIDVisualizer_updateSimulation_def Let_def slice_neg_length)

end
